theory Spec2Isabelle
  imports Complex_Main
begin

section \<open>Distributed traffic simulation: master and worker nodes\<close>

text \<open>
  A shallow embedding of \<^verbatim>\<open>distributed_traffic_sim.py\<close>. The module-level globals of a
  process are one record, passed to and returned by every function that reads or writes
  them; the master and a worker run the same script, each in a process of its own, so
  each has all of the globals and serves all of the routes. Numbers that the script keeps
  as Python floats (wall-clock readings, vehicle coordinates) are exact reals here. The
  text of HTML pages and the timing statistics (\<^verbatim>\<open>simulation_start_time\<close>,
  \<^verbatim>\<open>step_start_time\<close>, \<^verbatim>\<open>step_times\<close> and the test-mode report of their mean) are
  left out.
\<close>

subsection \<open>Configuration constants\<close>

definition ZONE_SIZE :: real where "ZONE_SIZE = 200"
definition ROAD_WIDTH :: real where "ROAD_WIDTH = 20"
definition CAR_SIZE :: real where "CAR_SIZE = 5"
definition CAR_SPEED :: real where "CAR_SPEED = 7"
definition MAX_CARS_PER_ZONE :: nat where "MAX_CARS_PER_ZONE = 80"

subsection \<open>Python dictionaries and bounded deques\<close>

text \<open>
  A \<^verbatim>\<open>dict\<close> keeps its keys in insertion order; assigning to a key that is present
  replaces the value in place, assigning to a new key appends. Lookup is \<^const>\<open>map_of\<close>.
\<close>

fun dict_set :: "'k \<Rightarrow> 'v \<Rightarrow> ('k \<times> 'v) list \<Rightarrow> ('k \<times> 'v) list" where
  "dict_set k v [] = [(k, v)]"
| "dict_set k v ((k', v') # kvs) =
     (if k' = k then (k, v) # kvs else (k', v') # dict_set k v kvs)"

text \<open>
  \<^verbatim>\<open>collections.deque(maxlen=n).append(x)\<close>: the element goes to the right end, and when
  the deque is over its bound the surplus is dropped from the left end.
\<close>

definition deque_append :: "nat \<Rightarrow> 'a list \<Rightarrow> 'a \<Rightarrow> 'a list" where
  "deque_append maxlen d x = drop (length (d @ [x]) - maxlen) (d @ [x])"

definition graph_data_maxlen :: nat where "graph_data_maxlen = 100"

subsection \<open>Vehicles and the traffic light\<close>

text \<open>What \<^verbatim>\<open>get_state\<close> gives of a vehicle and of a light.\<close>

record vehicle_state =
  vs_id :: string
  vs_x :: real
  vs_y :: real
  vs_direction :: string

record light_state =
  ls_x :: real
  ls_y :: real
  ls_state :: string


record vehicle =
  v_x :: real
  v_y :: real
  v_direction :: string
  v_zone_bounds :: "real \<times> real \<times> real \<times> real"
  v_id :: string

text \<open>\<^verbatim>\<open>Vehicle.move\<close>: a direction other than the four letters leaves the vehicle alone.\<close>

definition move :: "vehicle \<Rightarrow> vehicle" where
  "move v =
     (case v_zone_bounds v of (min_x, min_y, max_x, max_y) \<Rightarrow>
        if v_direction v = ''E'' then
          let x = v_x v + CAR_SPEED
          in v\<lparr>v_x := (if x > max_x + CAR_SIZE then min_x - CAR_SIZE else x)\<rparr>
        else if v_direction v = ''W'' then
          let x = v_x v - CAR_SPEED
          in v\<lparr>v_x := (if x < min_x - CAR_SIZE then max_x + CAR_SIZE else x)\<rparr>
        else if v_direction v = ''S'' then
          let y = v_y v + CAR_SPEED
          in v\<lparr>v_y := (if y > max_y + CAR_SIZE then min_y - CAR_SIZE else y)\<rparr>
        else if v_direction v = ''N'' then
          let y = v_y v - CAR_SPEED
          in v\<lparr>v_y := (if y < min_y - CAR_SIZE then max_y + CAR_SIZE else y)\<rparr>
        else v)"

definition vehicle_get_state :: "vehicle \<Rightarrow> vehicle_state" where
  "vehicle_get_state v =
     \<lparr>vs_id = v_id v, vs_x = v_x v, vs_y = v_y v, vs_direction = v_direction v\<rparr>"

text \<open>
  The coordinate of a vehicle on its axis of motion, with the bounds of that axis:
  \<open>x\<close> for east and west, \<open>y\<close> for south and north.
\<close>

definition axis_coordinate :: "vehicle \<Rightarrow> real" where
  "axis_coordinate v =
     (if v_direction v = ''E'' \<or> v_direction v = ''W'' then v_x v else v_y v)"

definition axis_bounds :: "vehicle \<Rightarrow> real \<times> real" where
  "axis_bounds v =
     (case v_zone_bounds v of (min_x, min_y, max_x, max_y) \<Rightarrow>
        if v_direction v = ''E'' \<or> v_direction v = ''W'' then (min_x, max_x)
        else (min_y, max_y))"

definition within_wrap_range :: "vehicle \<Rightarrow> bool" where
  "within_wrap_range v =
     (case axis_bounds v of (bound_min, bound_max) \<Rightarrow>
        bound_min - CAR_SIZE \<le> axis_coordinate v
          \<and> axis_coordinate v \<le> bound_max + CAR_SIZE)"

record traffic_light =
  tl_x :: real
  tl_y :: real
  tl_state :: string
  tl_last_change_time :: real
  tl_cycle_time :: real

definition TrafficLight :: "real \<Rightarrow> real \<Rightarrow> real \<Rightarrow> traffic_light" where
  "TrafficLight x y now =
     \<lparr>tl_x = x, tl_y = y, tl_state = ''red'', tl_last_change_time = now,
      tl_cycle_time = 2\<rparr>"

text \<open>\<^verbatim>\<open>TrafficLight.update\<close>, with one clock reading for the test and the new time.\<close>

definition traffic_light_update :: "real \<Rightarrow> traffic_light \<Rightarrow> traffic_light" where
  "traffic_light_update now light =
     (if now - tl_last_change_time light > tl_cycle_time light
      then light\<lparr>tl_state := (if tl_state light = ''red'' then ''green'' else ''red''),
              tl_last_change_time := now\<rparr>
      else light)"

definition traffic_light_get_state :: "traffic_light \<Rightarrow> light_state" where
  "traffic_light_get_state light = \<lparr>ls_x = tl_x light, ls_y = tl_y light, ls_state = tl_state light\<rparr>"

subsection \<open>The globals of a process\<close>

record zone_data =
  zd_vehicles :: "vehicle_state list"
  zd_traffic_light :: "light_state option"

record worker_record =
  wr_url :: string
  wr_last_seen :: real
  wr_car_count :: int
  wr_id :: string
  wr_current_zone_data :: zone_data

text \<open>
  Master node data, then worker node data. \<^verbatim>\<open>master_host\<close> and \<^verbatim>\<open>master_port\<close>, which
  only name the address a worker posts to, are left out.
\<close>

record process_state =
  registered_workers :: "(string \<times> worker_record) list"
  total_cars_in_sim :: int
  simulation_step :: int
  simulation_active :: bool
  graph_data_history :: "(int \<times> int) list"
  full_simulation_grid_data :: "(string \<times> zone_data) list"
  worker_zone :: "string option"
  worker_id :: string
  worker_vehicles :: "vehicle list"
  worker_traffic_light :: "traffic_light option"

definition current_zone_bounds :: "real \<times> real \<times> real \<times> real" where
  "current_zone_bounds = (0, 0, ZONE_SIZE, ZONE_SIZE)"

text \<open>
  The values the module gives its globals when it is loaded; \<^verbatim>\<open>worker_id\<close> is made
  from the process id, a parameter here.
\<close>

definition initial_state :: "string \<Rightarrow> process_state" where
  "initial_state wid =
     \<lparr>registered_workers = [], total_cars_in_sim = 0, simulation_step = 0,
      simulation_active = True, graph_data_history = [],
      full_simulation_grid_data = [],
      worker_zone = None, worker_id = wid, worker_vehicles = [],
      worker_traffic_light = None\<rparr>"

definition initial_master_state :: process_state where
  "initial_master_state = initial_state ''worker_4000''"

text \<open>\<^verbatim>\<open>sum(data['car_count'] for data in registered_workers.values())\<close>\<close>

definition sum_car_counts :: "(string \<times> worker_record) list \<Rightarrow> int" where
  "sum_car_counts ws = sum_list (map (\<lambda>(zone, data). wr_car_count data) ws)"

subsection \<open>Registration and update requests\<close>

text \<open>
  A JSON body is a record of optional fields: \<^verbatim>\<open>data.get('k')\<close> is \<open>None\<close> when the key
  is absent. A field that is present has the type the sender gives it: zones, urls and
  ids are strings, counts and step numbers are integers. Python's \<^verbatim>\<open>not v\<close>
  holds of an absent and of an empty string.
\<close>

definition py_not :: "string option \<Rightarrow> bool" where
  "py_not v = (case v of None \<Rightarrow> True | Some str \<Rightarrow> str = [])"

record register_request =
  rr_zone :: "string option"
  rr_worker_url :: "string option"
  rr_worker_id :: "string option"

record update_request =
  ur_zone :: "string option"
  ur_car_count :: "int option"
  ur_worker_id :: "string option"
  ur_vehicles :: "vehicle_state list option"
  ur_traffic_light :: "light_state option"

datatype body =
    MissingRegisterFields
  | WorkerRegistered string
  | MissingUpdateFields
  | UpdateReceived
  | NotRegisteredOrIdMismatch

type_synonym response = "nat \<times> body"

text \<open>
  \<^verbatim>\<open>register_worker\<close>: the second argument is the reading of \<^verbatim>\<open>time.time()\<close>.
\<close>

definition register_worker ::
  "register_request \<Rightarrow> real \<Rightarrow> process_state \<Rightarrow> response \<times> process_state" where
  "register_worker data now s =
     (if py_not (rr_zone data) \<or> py_not (rr_worker_url data) \<or> py_not (rr_worker_id data)
      then ((400, MissingRegisterFields), s)
      else
        let zone = the (rr_zone data);
            worker_url = the (rr_worker_url data);
            worker_id = the (rr_worker_id data)
        in ((200, WorkerRegistered worker_id),
            s\<lparr>registered_workers :=
                 dict_set zone
                   \<lparr>wr_url = worker_url, wr_last_seen = now, wr_car_count = 0,
                    wr_id = worker_id,
                    wr_current_zone_data = \<lparr>zd_vehicles = [], zd_traffic_light = None\<rparr>\<rparr>
                   (registered_workers s)\<rparr>))"

text \<open>
  \<^verbatim>\<open>traffic_update\<close>: the field check comes first and answers 400; then the zone is
  looked up and its registered id compared with the reported one, answering 404 when
  either fails. An accepted update rewrites three fields of the zone's record, moves the
  running total by the difference of the counts, and stores the snapshot in the grid.
\<close>

definition traffic_update ::
  "update_request \<Rightarrow> real \<Rightarrow> process_state \<Rightarrow> response \<times> process_state" where
  "traffic_update data now s =
     (let zone_vehicles = (case ur_vehicles data of None \<Rightarrow> [] | Some vs \<Rightarrow> vs);
          zone_traffic_light = ur_traffic_light data
      in
      if py_not (ur_zone data) \<or> ur_car_count data = None \<or> py_not (ur_worker_id data)
      then ((400, MissingUpdateFields), s)
      else
        let zone = the (ur_zone data);
            car_count = the (ur_car_count data);
            worker_id_from_update = the (ur_worker_id data)
        in (case map_of (registered_workers s) zone of
              None \<Rightarrow> ((404, NotRegisteredOrIdMismatch), s)
            | Some entry \<Rightarrow>
                if wr_id entry = worker_id_from_update
                then
                  let old_car_count = wr_car_count entry;
                      snapshot = \<lparr>zd_vehicles = zone_vehicles,
                                  zd_traffic_light = zone_traffic_light\<rparr>
                  in ((200, UpdateReceived),
                      s\<lparr>registered_workers :=
                           dict_set zone
                             (entry\<lparr>wr_car_count := car_count, wr_last_seen := now,
                                    wr_current_zone_data := snapshot\<rparr>)
                             (registered_workers s),
                        total_cars_in_sim :=
                           total_cars_in_sim s + (car_count - old_car_count),
                        full_simulation_grid_data :=
                           dict_set zone snapshot (full_simulation_grid_data s)\<rparr>)
                else ((404, NotRegisteredOrIdMismatch), s)))"

subsection \<open>The step request\<close>

text \<open>
  The draws of the random source in one step, in the order the handler may ask for them.
  A draw of \<^verbatim>\<open>random.random()\<close> is a real; a draw from a finite range is any natural
  number, reduced into the range.
\<close>

record step_draws =
  d_spawn :: real
  d_direction :: nat
  d_fallback_x :: nat
  d_fallback_y :: nat
  d_car_id :: nat
  d_remove :: real
  d_remove_index :: nat

definition randint :: "int \<Rightarrow> int \<Rightarrow> nat \<Rightarrow> int" where
  "randint a b draw = a + int (draw mod nat (b - a + 1))"

definition random_choice :: "'a list \<Rightarrow> nat \<Rightarrow> 'a" where
  "random_choice xs draw = xs ! (draw mod length xs)"

definition digit_char :: "nat \<Rightarrow> char" where
  "digit_char d = ''0123456789'' ! d"

fun str_nat :: "nat \<Rightarrow> string" where
  "str_nat n = (if n < 10 then [digit_char n] else str_nat (n div 10) @ [digit_char (n mod 10)])"

definition str_int :: "int \<Rightarrow> string" where
  "str_int i = (if i < 0 then ''-'' @ str_nat (nat (- i)) else str_nat (nat i))"

text \<open>\<^verbatim>\<open>list.pop(i)\<close> for an index within the list.\<close>

definition list_pop :: "nat \<Rightarrow> 'a list \<Rightarrow> 'a list" where
  "list_pop i xs = take i xs @ drop (Suc i) xs"

definition spawn_point :: "string \<Rightarrow> step_draws \<Rightarrow> real \<times> real" where
  "spawn_point direction draws =
     (if direction = ''E'' then (- CAR_SIZE, ZONE_SIZE / 2 - CAR_SIZE / 2)
      else if direction = ''W'' then (ZONE_SIZE, ZONE_SIZE / 2 - CAR_SIZE / 2)
      else if direction = ''S'' then (ZONE_SIZE / 2 - CAR_SIZE / 2, - CAR_SIZE)
      else if direction = ''N'' then (ZONE_SIZE / 2 - CAR_SIZE / 2, ZONE_SIZE)
      else (of_int (randint 0 195 (d_fallback_x draws)),
            of_int (randint 0 195 (d_fallback_y draws))))"

text \<open>The vehicle a step spawns, from the globals as they are when it is made.\<close>

definition spawned_vehicle :: "step_draws \<Rightarrow> process_state \<Rightarrow> vehicle" where
  "spawned_vehicle draws w =
     (let direction = random_choice [''E'', ''W'', ''N'', ''S''] (d_direction draws);
          (x, y) = spawn_point direction draws;
          new_car_id =
            worker_id w @ ''_car_'' @ str_int (simulation_step w) @ ''_''
              @ str_int (randint 0 1000 (d_car_id draws))
      in \<lparr>v_x = x, v_y = y, v_direction = direction,
          v_zone_bounds = current_zone_bounds, v_id = new_car_id\<rparr>)"

text \<open>
  \<^verbatim>\<open>worker_simulate_step\<close>, the handler of \<^verbatim>\<open>/simulate_step\<close>: it assigns the posted step
  number to the global \<^verbatim>\<open>simulation_step\<close> of the process that serves the request, then
  the light, the moves, the spawn, the removal, and the report posted to the master.
  Whether the post succeeds changes nothing in the serving process, so the result is the
  report and the new globals.
\<close>

definition worker_simulate_step ::
  "int \<Rightarrow> real \<Rightarrow> step_draws \<Rightarrow> process_state \<Rightarrow> update_request \<times> process_state" where
  "worker_simulate_step master_step now draws w =
     (let w1 = w\<lparr>simulation_step := master_step\<rparr>;
          w2 = w1\<lparr>worker_traffic_light :=
                    map_option (traffic_light_update now) (worker_traffic_light w1)\<rparr>;
          w3 = w2\<lparr>worker_vehicles := map move (worker_vehicles w2)\<rparr>;
          w4 =
            (if d_spawn draws < 0.4 \<and> length (worker_vehicles w3) < MAX_CARS_PER_ZONE
             then w3\<lparr>worker_vehicles := worker_vehicles w3 @ [spawned_vehicle draws w3]\<rparr>
             else w3);
          w5 =
            (if d_remove draws < 0.02 \<and> length (worker_vehicles w4) > 20
             then
               w4\<lparr>worker_vehicles :=
                     list_pop
                       (nat (randint 0 (int (length (worker_vehicles w4)) - 1)
                               (d_remove_index draws)))
                       (worker_vehicles w4)\<rparr>
             else w4);
          vehicles_state = map vehicle_get_state (worker_vehicles w5);
          traffic_light_state = map_option traffic_light_get_state (worker_traffic_light w5)
      in (\<lparr>ur_zone = worker_zone w5,
           ur_car_count = Some (int (length (worker_vehicles w5))),
           ur_worker_id = Some (worker_id w5),
           ur_vehicles = Some vehicles_state,
           ur_traffic_light = traffic_light_state\<rparr>,
          w5))"

subsection \<open>The step coordinator\<close>

text \<open>
  The routes of a process run on request threads while the coordinator loop is blocked in
  a network call or in \<^verbatim>\<open>time.sleep\<close>. The requests served at each such point are an
  input of the model, each with the clock reading its handler takes. The master serves
  the three routes that change globals: \<^verbatim>\<open>/register_worker\<close>, \<^verbatim>\<open>/traffic_update\<close>, and
  \<^verbatim>\<open>/simulate_step\<close>, which the script registers on the one Flask application that every
  process runs.
\<close>

datatype master_request =
    RegisterWorker register_request real
  | TrafficUpdate update_request real
  | SimulateStep int real step_draws

fun serve :: "master_request \<Rightarrow> process_state \<Rightarrow> process_state" where
  "serve (RegisterWorker data now) s = snd (register_worker data now s)"
| "serve (TrafficUpdate data now) s = snd (traffic_update data now s)"
| "serve (SimulateStep master_step now draws) s =
     snd (worker_simulate_step master_step now draws s)"

definition serve_all :: "master_request list \<Rightarrow> process_state \<Rightarrow> process_state" where
  "serve_all reqs s = fold serve reqs s"


fun is_simulate_step :: "master_request \<Rightarrow> bool" where
  "is_simulate_step (SimulateStep master_step now draws) = True"
| "is_simulate_step req = False"

text \<open>Lines printed by the coordinator loop, one constructor for each \<^verbatim>\<open>print\<close>.\<close>

datatype log_msg =
    StartingLoop
  | WaitingForWorkers
  | TimeoutWaiting nat nat
  | NoWorkersRegistered
  | StartingWith nat "string list"
  | WorkerCommError string string
  | LoopFinished

text \<open>
  One \<^verbatim>\<open>requests.post\<close> to a worker's \<^verbatim>\<open>/simulate_step\<close>: what the master served while
  the call was in flight, and whether the call raised a \<^verbatim>\<open>RequestException\<close> (timeout,
  connection error, error status). The exception is caught and only printed.
\<close>

record call_outcome =
  co_served :: "master_request list"
  co_raised :: bool

definition post_simulate_step ::
  "call_outcome \<Rightarrow> string \<Rightarrow> string \<Rightarrow> process_state \<Rightarrow> log_msg list \<times> process_state" where
  "post_simulate_step oc zone worker_url s =
     (if co_raised oc then [WorkerCommError zone worker_url] else [],
      serve_all (co_served oc) s)"

text \<open>
  The \<^verbatim>\<open>for\<close> loop over \<^verbatim>\<open>list(registered_workers.items())\<close>: the list is the snapshot
  taken when the loop starts.
\<close>

fun step_workers ::
  "(string \<Rightarrow> call_outcome) \<Rightarrow> (string \<times> worker_record) list \<Rightarrow> process_state
     \<Rightarrow> log_msg list \<times> process_state" where
  "step_workers calls [] s = ([], s)"
| "step_workers calls ((zone, worker_info) # rest) s =
     (let (out1, s1) = post_simulate_step (calls zone) zone (wr_url worker_info) s;
          (out2, s2) = step_workers calls rest s1
      in (out1 @ out2, s2))"

record cycle_env =
  c_now :: real
  c_calls :: "string \<Rightarrow> call_outcome"
  c_sleep :: "master_request list"

text \<open>The first half of a cycle: advance the step, then command every worker.\<close>

definition cycle_fan_out :: "cycle_env \<Rightarrow> process_state \<Rightarrow> log_msg list \<times> process_state" where
  "cycle_fan_out env s =
     (let s1 = s\<lparr>simulation_step := simulation_step s + 1\<rparr>
      in step_workers (c_calls env) (registered_workers s1) s1)"

text \<open>The second half: sum the counts of the registry and append the sample.\<close>

definition cycle_record :: "process_state \<Rightarrow> process_state" where
  "cycle_record s =
     (let current_total_cars = sum_car_counts (registered_workers s)
      in s\<lparr>graph_data_history :=
             deque_append graph_data_maxlen (graph_data_history s)
               (simulation_step s, current_total_cars)\<rparr>)"

text \<open>The body of the \<^verbatim>\<open>while\<close> loop, ending with the sleep of half a second.\<close>

definition master_cycle :: "cycle_env \<Rightarrow> process_state \<Rightarrow> log_msg list \<times> process_state" where
  "master_cycle env s =
     (let (out, s2) = cycle_fan_out env s;
          s3 = cycle_record s2
      in (out, serve_all (c_sleep env) s3))"

text \<open>
  A run of consecutive cycles, one for each element of the list, and the samples these
  cycles hand to the history, in the order of the cycles.
\<close>

fun iterate_cycles :: "cycle_env list \<Rightarrow> process_state \<Rightarrow> process_state" where
  "iterate_cycles [] s = s"
| "iterate_cycles (env # envs) s = iterate_cycles envs (snd (master_cycle env s))"

fun recorded_samples :: "cycle_env list \<Rightarrow> process_state \<Rightarrow> (int \<times> int) list" where
  "recorded_samples [] s = []"
| "recorded_samples (env # envs) s =
     (simulation_step (snd (cycle_fan_out env s)),
      sum_car_counts (registered_workers (snd (cycle_fan_out env s))))
       # recorded_samples envs (snd (master_cycle env s))"

definition expected_zones :: "string list" where
  "expected_zones = [''North'', ''South'', ''East'', ''West'']"

definition initial_wait_timeout :: real where "initial_wait_timeout = 30"

text \<open>
  A round of the waiting loop reads the clock once and, unless it breaks, sleeps a second.
  The list of rounds is the fuel of the loop: \<open>None\<close> says that the rounds given end
  before the loop does.
\<close>

record wait_round =
  wt_now :: real
  wt_served :: "master_request list"

fun wait_for_workers ::
  "real \<Rightarrow> wait_round list \<Rightarrow> process_state \<Rightarrow> (log_msg list \<times> process_state) option" where
  "wait_for_workers start_wait_time [] s =
     (if length (registered_workers s) < length expected_zones then None else Some ([], s))"
| "wait_for_workers start_wait_time (r # rs) s =
     (if length (registered_workers s) < length expected_zones
      then
        if wt_now r - start_wait_time > initial_wait_timeout
        then Some ([TimeoutWaiting (length (registered_workers s)) (length expected_zones)], s)
        else wait_for_workers start_wait_time rs (serve_all (wt_served r) s)
      else Some ([], s))"

text \<open>
  \<^verbatim>\<open>end_time = simulation_start_time + duration if duration else float('inf')\<close>, with
  \<open>None\<close> for infinity; a duration of zero is false in Python.
\<close>

definition end_time_of :: "real option \<Rightarrow> real \<Rightarrow> real option" where
  "end_time_of duration simulation_start_time =
     (case duration of
        None \<Rightarrow> None
      | Some d \<Rightarrow> if d = 0 then None else Some (simulation_start_time + d))"

definition before :: "real \<Rightarrow> real option \<Rightarrow> bool" where
  "before now end_time = (case end_time of None \<Rightarrow> True | Some t \<Rightarrow> now < t)"

text \<open>
  The main \<^verbatim>\<open>while\<close> loop. Each element of the list is one arrival at the loop head;
  its clock reading decides the test. \<open>None\<close>: the list ends while the loop still runs.
\<close>

fun run_cycles ::
  "real option \<Rightarrow> cycle_env list \<Rightarrow> process_state \<Rightarrow> (log_msg list \<times> process_state) option" where
  "run_cycles end_time [] s = (if simulation_active s then None else Some ([], s))"
| "run_cycles end_time (c # cs) s =
     (if simulation_active s \<and> before (c_now c) end_time
      then
        let (out, s') = master_cycle c s
        in (case run_cycles end_time cs s' of
              None \<Rightarrow> None
            | Some (out', s'') \<Rightarrow> Some (out @ out', s''))
      else Some ([], s))"

text \<open>
  How a Python function hands control back: it returns, or \<^verbatim>\<open>sys.exit(code)\<close> ends the
  process with that status.
\<close>

datatype control = Return | SysExit int

record loop_env =
  le_start_time :: real
  le_start_wait_time :: real
  le_wait :: "wait_round list"
  le_cycles :: "cycle_env list"

definition master_simulation_loop ::
  "real option \<Rightarrow> loop_env \<Rightarrow> process_state
     \<Rightarrow> (control \<times> log_msg list \<times> process_state) option" where
  "master_simulation_loop duration env s =
     (let end_time = end_time_of duration (le_start_time env)
      in case wait_for_workers (le_start_wait_time env) (le_wait env) s of
           None \<Rightarrow> None
         | Some (out_wait, s1) \<Rightarrow>
             if registered_workers s1 = []
             then Some (Return,
                        [StartingLoop, WaitingForWorkers] @ out_wait @ [NoWorkersRegistered],
                        s1\<lparr>simulation_active := False\<rparr>)
             else
               (case run_cycles end_time (le_cycles env) s1 of
                  None \<Rightarrow> None
                | Some (out_cycles, s2) \<Rightarrow>
                    Some (Return,
                          [StartingLoop, WaitingForWorkers] @ out_wait
                            @ [StartingWith (length (registered_workers s1))
                                 (map fst (registered_workers s1))]
                            @ out_cycles @ [LoopFinished],
                          s2\<lparr>simulation_active := False\<rparr>)))"

subsection \<open>The broadcast stream\<close>

record worker_details =
  wd_url :: string
  wd_last_seen :: real
  wd_car_count :: int
  wd_id :: string

record payload =
  p_type :: string
  p_status :: string
  p_step :: int
  p_total_cars :: int
  p_num_workers :: nat
  p_history :: "(int \<times> int) list"
  p_zone_data :: "(string \<times> zone_data) list"
  p_registered_workers :: "(string \<times> worker_details) list"

text \<open>
  One round of the \<^verbatim>\<open>while True\<close> loop of \<^verbatim>\<open>generate_data\<close>, on the master state the
  round observes: the element it yields, if any, and the new \<^verbatim>\<open>last_step_sent\<close>.
\<close>

definition stream_round :: "int \<Rightarrow> process_state \<Rightarrow> payload option \<times> int" where
  "stream_round last_step_sent s =
     (let current_total_cars = sum_car_counts (registered_workers s);
          current_simulation_step = simulation_step s;
          current_status = (if simulation_active s then ''Active'' else ''Inactive'');
          current_num_workers = length (registered_workers s);
          current_registered_workers_details =
            map (\<lambda>(zone, data).
                   (zone, \<lparr>wd_url = wr_url data, wd_last_seen = wr_last_seen data,
                           wd_car_count = wr_car_count data, wd_id = wr_id data\<rparr>))
              (registered_workers s)
      in
      if current_simulation_step > last_step_sent
           \<or> (current_simulation_step = 0 \<and> last_step_sent = - 1)
      then
        let payload =
              \<lparr>p_type = ''update'', p_status = current_status,
               p_step = current_simulation_step, p_total_cars = current_total_cars,
               p_num_workers = current_num_workers,
               p_history = graph_data_history s,
               p_zone_data = full_simulation_grid_data s,
               p_registered_workers = current_registered_workers_details\<rparr>;
            payload' =
              (if last_step_sent = - 1 then payload\<lparr>p_type := ''initial_data''\<rparr>
               else payload)
        in (Some payload', current_simulation_step)
      else (None, last_step_sent))"

text \<open>
  The generator on a finite run of observations, one per round, giving for each round
  what it yields. A connection starts with \<^verbatim>\<open>last_step_sent = -1\<close>.
\<close>

fun generate_data_from :: "int \<Rightarrow> process_state list \<Rightarrow> payload option list" where
  "generate_data_from last_step_sent [] = []"
| "generate_data_from last_step_sent (s # obs) =
     (let (out, last_step_sent') = stream_round last_step_sent s
      in out # generate_data_from last_step_sent' obs)"

definition generate_data :: "process_state list \<Rightarrow> payload option list" where
  "generate_data obs = generate_data_from (- 1) obs"

text \<open>The value of \<^verbatim>\<open>last_step_sent\<close> after a run of rounds.\<close>

definition last_step_sent_after :: "int \<Rightarrow> process_state list \<Rightarrow> int" where
  "last_step_sent_after l obs = foldl (\<lambda>l s. snd (stream_round l s)) l obs"

text \<open>The element a connection yielded most recently, in a run of rounds.\<close>

fun latest_yield :: "payload option list \<Rightarrow> payload option" where
  "latest_yield [] = None"
| "latest_yield (out # outs) =
     (case latest_yield outs of Some p \<Rightarrow> Some p | None \<Rightarrow> out)"

subsection \<open>Worker registration at startup, and the two kinds of process\<close>

text \<open>
  The registration loop of \<^verbatim>\<open>worker_startup\<close>: up to ten attempts, and a
  \<^verbatim>\<open>sys.exit(1)\<close> in the \<^verbatim>\<open>else\<close> of the \<^verbatim>\<open>while\<close> when none succeeds. \<open>Return\<close>
  stands for leaving the loop by \<^verbatim>\<open>break\<close>; \<open>None\<close> says the attempts given run out.
\<close>

datatype register_attempt = RegisterOk | RegisterConnectionError | RegisterRequestError

fun register_loop :: "nat \<Rightarrow> register_attempt list \<Rightarrow> control option" where
  "register_loop retries [] = (if retries > 0 then None else Some (SysExit 1))"
| "register_loop retries (a # rest) =
     (if retries > 0
      then if a = RegisterOk then Some Return else register_loop (retries - 1) rest
      else Some (SysExit 1))"

text \<open>\<^verbatim>\<open>retries = 10\<close>\<close>

definition worker_startup_register :: "register_attempt list \<Rightarrow> control option" where
  "worker_startup_register attempts = register_loop 10 attempts"

text \<open>
  A process runs as long as its main thread does, and ends with the status of a
  \<^verbatim>\<open>sys.exit\<close> raised there, or with status 0 when the main thread returns. The argument
  is how the main thread ended, \<open>None\<close> while it has not.
\<close>

datatype process_status = Running | Exited int

definition main_thread_status :: "control option \<Rightarrow> process_status" where
  "main_thread_status ended =
     (case ended of
        None \<Rightarrow> Running
      | Some Return \<Rightarrow> Exited 0
      | Some (SysExit code) \<Rightarrow> Exited code)"

text \<open>
  The worker branch of the entry point calls \<^verbatim>\<open>worker_startup\<close> on the main thread:
  when registration fails the process exits with status 1, otherwise the main thread
  stays in its \<^verbatim>\<open>while True\<close> loop.
\<close>

definition worker_process :: "register_attempt list \<Rightarrow> process_status option" where
  "worker_process attempts =
     (case worker_startup_register attempts of
        None \<Rightarrow> None
      | Some Return \<Rightarrow> Some (main_thread_status None)
      | Some (SysExit code) \<Rightarrow> Some (main_thread_status (Some (SysExit code))))"

text \<open>
  The master branch starts \<^verbatim>\<open>master_simulation_loop\<close> on a daemon thread and then calls
  \<^verbatim>\<open>app.run\<close> on the main thread, which serves requests and does not return. How the
  loop hands control back ends its own thread only; the result is the status of the
  process once the loop has ended, with what the loop printed and the globals it left.
\<close>

definition master_process ::
  "real option \<Rightarrow> loop_env \<Rightarrow> process_state
     \<Rightarrow> (process_status \<times> log_msg list \<times> process_state) option" where
  "master_process duration env s =
     (case master_simulation_loop duration env s of
        None \<Rightarrow> None
      | Some (thread_ended, out, s') \<Rightarrow> Some (main_thread_status None, out, s'))"

subsection \<open>Sample inputs\<close>

definition sample_draws :: "real \<Rightarrow> real \<Rightarrow> step_draws" where
  "sample_draws spawn remove =
     \<lparr>d_spawn = spawn, d_direction = 1, d_fallback_x = 0, d_fallback_y = 0,
      d_car_id = 417, d_remove = remove, d_remove_index = 5\<rparr>"

definition north_record :: worker_record where
  "north_record =
     \<lparr>wr_url = ''http://localhost:5100'', wr_last_seen = 1, wr_car_count = 25,
      wr_id = ''worker_11'',
      wr_current_zone_data = \<lparr>zd_vehicles = [], zd_traffic_light = None\<rparr>\<rparr>"

definition south_record :: worker_record where
  "south_record =
     \<lparr>wr_url = ''http://localhost:5101'', wr_last_seen = 2, wr_car_count = 30,
      wr_id = ''worker_12'',
      wr_current_zone_data = \<lparr>zd_vehicles = [], zd_traffic_light = None\<rparr>\<rparr>"

text \<open>A master with two zones registered and reported, two cycles into the run.\<close>

definition two_zone_master :: process_state where
  "two_zone_master =
     initial_master_state
       \<lparr>registered_workers := [(''North'', north_record), (''South'', south_record)],
        total_cars_in_sim := 55, simulation_step := 2,
        graph_data_history := [(1, 50), (2, 55)],
        full_simulation_grid_data :=
          [(''North'', \<lparr>zd_vehicles = [], zd_traffic_light = None\<rparr>),
           (''South'', \<lparr>zd_vehicles = [], zd_traffic_light = None\<rparr>)]\<rparr>"

definition sample_update :: "string \<Rightarrow> string \<Rightarrow> int \<Rightarrow> update_request" where
  "sample_update zone wid n =
     \<lparr>ur_zone = Some zone, ur_car_count = Some n, ur_worker_id = Some wid,
      ur_vehicles = Some [], ur_traffic_light = None\<rparr>"

definition sample_register :: "string \<Rightarrow> string \<Rightarrow> register_request" where
  "sample_register zone wid =
     \<lparr>rr_zone = Some zone, rr_worker_url = Some ''http://localhost:5102'',
      rr_worker_id = Some wid\<rparr>"


text \<open>A cycle in which every call fails.\<close>

definition failing_cycle :: cycle_env where
  "failing_cycle =
     \<lparr>c_now = 12, c_calls = (\<lambda>zone. \<lparr>co_served = [], co_raised = True\<rparr>), c_sleep = []\<rparr>"

text \<open>
  A cycle in which every call fails while the master serves a step request carrying 0.
\<close>

definition resetting_cycle :: cycle_env where
  "resetting_cycle =
     \<lparr>c_now = 12,
      c_calls = (\<lambda>zone. \<lparr>co_served = [SimulateStep 0 12.5 (sample_draws 0.9 0.9)],
                          co_raised = True\<rparr>),
      c_sleep = []\<rparr>"

text \<open>A startup in which nobody registers and the fourth reading is past the timeout.\<close>

definition no_worker_env :: loop_env where
  "no_worker_env =
     \<lparr>le_start_time = 0, le_start_wait_time = 0,
      le_wait = [\<lparr>wt_now = 0.1, wt_served = []\<rparr>, \<lparr>wt_now = 10.5, wt_served = []\<rparr>,
                 \<lparr>wt_now = 20.8, wt_served = []\<rparr>, \<lparr>wt_now = 31.2, wt_served = []\<rparr>],
      le_cycles = []\<rparr>"

text \<open>What four rounds of one stream connection observe: steps 0, 2, 2 and 3.\<close>

definition sample_observations :: "process_state list" where
  "sample_observations =
     [initial_master_state, two_zone_master, two_zone_master,
      two_zone_master\<lparr>simulation_step := 3\<rparr>]"

text \<open>
  A connection opened while the master's counter is negative: steps -3, 2 and 3.
\<close>

definition late_start_observations :: "process_state list" where
  "late_start_observations =
     [initial_master_state\<lparr>simulation_step := - 3\<rparr>, two_zone_master,
      two_zone_master\<lparr>simulation_step := 3\<rparr>]"

definition sample_vehicle :: "string \<Rightarrow> real \<Rightarrow> real \<Rightarrow> vehicle" where
  "sample_vehicle direction x y =
     \<lparr>v_x = x, v_y = y, v_direction = direction,
      v_zone_bounds = (0, 0, ZONE_SIZE, ZONE_SIZE), v_id = ''car_North_0''\<rparr>"

definition sample_worker :: "nat \<Rightarrow> process_state" where
  "sample_worker n =
     (initial_state ''worker_11'')
       \<lparr>simulation_step := 2,
        worker_vehicles := replicate n (sample_vehicle ''E'' 10 97.5),
        worker_traffic_light := Some (TrafficLight 100 100 0),
        worker_zone := Some ''North''\<rparr>"

text \<open>A master whose history is full, five cycles past the hundredth.\<close>

definition full_history_master :: process_state where
  "full_history_master =
     two_zone_master\<lparr>simulation_step := 105, graph_data_history := replicate 100 (7, 55)\<rparr>"

section \<open>Properties\<close>

subsection \<open>Dictionaries and deques\<close>

lemma map_of_dict_set: "map_of (dict_set k v kvs) = (map_of kvs)(k \<mapsto> v)"
  by (induction kvs) auto

lemma sum_dict_set:
  fixes f :: "'v \<Rightarrow> int"
  shows "sum_list (map (\<lambda>(k, v). f v) (dict_set k v kvs)) =
         sum_list (map (\<lambda>(k, v). f v) kvs)
           - (case map_of kvs k of None \<Rightarrow> 0 | Some old \<Rightarrow> f old) + f v"
  by (induction kvs) auto

lemma deque_append_length: "length (deque_append n h x) \<le> n"
  by (simp add: deque_append_def)

lemma deque_append_step:
  "drop (length (deque_append n h x @ xs) - n) (deque_append n h x @ xs)
     = drop (length (h @ x # xs) - n) (h @ x # xs)"
proof -
  define ys where "ys = h @ [x]"
  define k where "k = length ys - n"
  have app: "drop k ys @ xs = drop k (ys @ xs)"
    by (simp add: k_def)
  have idx: "length (drop k ys @ xs) - n + k = length (ys @ xs) - n"
    by (simp add: k_def)
  have "drop (length (drop k ys @ xs) - n) (drop k ys @ xs)
          = drop (length (drop k ys @ xs) - n + k) (ys @ xs)"
    by (simp only: app drop_drop)
  also have "\<dots> = drop (length (ys @ xs) - n) (ys @ xs)"
    by (simp only: idx)
  finally show ?thesis
    by (simp add: deque_append_def ys_def k_def)
qed

lemma deque_fold:
  "xs \<noteq> [] \<or> length h \<le> n \<Longrightarrow>
     foldl (deque_append n) h xs = drop (length (h @ xs) - n) (h @ xs)"
proof (induction xs arbitrary: h)
  case Nil
  then show ?case by simp
next
  case (Cons x xs)
  have "foldl (deque_append n) (deque_append n h x) xs
          = drop (length (deque_append n h x @ xs) - n) (deque_append n h x @ xs)"
    using Cons.IH [of "deque_append n h x"] deque_append_length [of n h x] by simp
  then show ?case
    by (simp only: foldl_Cons deque_append_step)
qed

lemma deque_fold_length: "length (foldl (deque_append n) [] xs) \<le> n"
  by (simp add: deque_fold)

subsection \<open>The update endpoint\<close>

text \<open>
  C3, as amended. An update whose zone or worker id is absent or empty, or that has no
  car count, is answered 400 with the master's state as it was, whatever the registry
  holds. An update that carries all three is answered 404, again with the state as it
  was, when its zone is not registered or when the id registered for the zone differs
  from the reported one; in particular an update carrying the old id is answered 404 once
  the zone has been registered again under another id. When zone and id match the answer
  is 200 and the zone's record has the reported count, the handler's clock reading as
  last-seen time, and the reported snapshot.
\<close>

theorem update_acceptance:
  "(py_not (ur_zone data) \<or> ur_car_count data = None \<or> py_not (ur_worker_id data) \<longrightarrow>
      traffic_update data now s = ((400, MissingUpdateFields), s))
   \<and> (\<forall>zone n wid.
        ur_zone data = Some zone \<and> zone \<noteq> [] \<and> ur_car_count data = Some n
          \<and> ur_worker_id data = Some wid \<and> wid \<noteq> [] \<longrightarrow>
        (map_of (registered_workers s) zone = None \<longrightarrow>
            traffic_update data now s = ((404, NotRegisteredOrIdMismatch), s))
        \<and> (\<forall>entry. map_of (registered_workers s) zone = Some entry \<and> wr_id entry \<noteq> wid \<longrightarrow>
            traffic_update data now s = ((404, NotRegisteredOrIdMismatch), s))
        \<and> (\<forall>entry. map_of (registered_workers s) zone = Some entry \<and> wr_id entry = wid \<longrightarrow>
            fst (traffic_update data now s) = (200, UpdateReceived)
            \<and> map_of (registered_workers (snd (traffic_update data now s))) zone =
                Some (entry\<lparr>wr_car_count := n, wr_last_seen := now,
                        wr_current_zone_data :=
                          \<lparr>zd_vehicles = (case ur_vehicles data of None \<Rightarrow> [] | Some vs \<Rightarrow> vs),
                           zd_traffic_light = ur_traffic_light data\<rparr>\<rparr>))
        \<and> (\<forall>reg t. rr_zone reg = Some zone \<and> \<not> py_not (rr_worker_url reg)
            \<and> \<not> py_not (rr_worker_id reg) \<and> rr_worker_id reg \<noteq> Some wid \<longrightarrow>
            traffic_update data now (snd (register_worker reg t s)) =
              ((404, NotRegisteredOrIdMismatch), snd (register_worker reg t s))))"
proof (intro conjI allI impI)
  assume "py_not (ur_zone data) \<or> ur_car_count data = None \<or> py_not (ur_worker_id data)"
  then show "traffic_update data now s = ((400, MissingUpdateFields), s)"
    by (auto simp: traffic_update_def Let_def)
next
  fix zone n wid
  assume "ur_zone data = Some zone \<and> zone \<noteq> [] \<and> ur_car_count data = Some n
            \<and> ur_worker_id data = Some wid \<and> wid \<noteq> []"
  then have fields: "ur_zone data = Some zone" "zone \<noteq> []" "ur_car_count data = Some n"
      "ur_worker_id data = Some wid" "wid \<noteq> []"
    by simp_all
  {
    assume "map_of (registered_workers s) zone = None"
    then show "traffic_update data now s = ((404, NotRegisteredOrIdMismatch), s)"
      using fields by (simp add: traffic_update_def py_not_def Let_def)
  next
    fix entry
    assume "map_of (registered_workers s) zone = Some entry \<and> wr_id entry \<noteq> wid"
    then show "traffic_update data now s = ((404, NotRegisteredOrIdMismatch), s)"
      using fields by (simp add: traffic_update_def py_not_def Let_def)
  next
    fix entry
    assume match: "map_of (registered_workers s) zone = Some entry \<and> wr_id entry = wid"
    then show "fst (traffic_update data now s) = (200, UpdateReceived)"
      using fields by (simp add: traffic_update_def py_not_def Let_def)
    from match show "map_of (registered_workers (snd (traffic_update data now s))) zone =
        Some (entry\<lparr>wr_car_count := n, wr_last_seen := now,
                wr_current_zone_data :=
                  \<lparr>zd_vehicles = (case ur_vehicles data of None \<Rightarrow> [] | Some vs \<Rightarrow> vs),
                   zd_traffic_light = ur_traffic_light data\<rparr>\<rparr>)"
      using fields by (simp add: traffic_update_def py_not_def Let_def map_of_dict_set)
  next
    fix reg :: register_request and t
    assume "rr_zone reg = Some zone \<and> \<not> py_not (rr_worker_url reg)
              \<and> \<not> py_not (rr_worker_id reg) \<and> rr_worker_id reg \<noteq> Some wid"
    then show "traffic_update data now (snd (register_worker reg t s)) =
                 ((404, NotRegisteredOrIdMismatch), snd (register_worker reg t s))"
      using fields
      by (auto simp: traffic_update_def register_worker_def py_not_def Let_def
            map_of_dict_set split: option.splits)
  }
qed

theorem update_acceptance_witness:
  "traffic_update
       \<lparr>ur_zone = Some ''North'', ur_car_count = Some 40, ur_worker_id = None,
        ur_vehicles = None, ur_traffic_light = None\<rparr> 7 two_zone_master
     = ((400, MissingUpdateFields), two_zone_master)
   \<and> traffic_update (sample_update ''North'' ''worker_11'' 40) 7 initial_master_state
     = ((404, NotRegisteredOrIdMismatch), initial_master_state)
   \<and> traffic_update (sample_update ''North'' ''worker_99'' 40) 7 two_zone_master
     = ((404, NotRegisteredOrIdMismatch), two_zone_master)
   \<and> fst (traffic_update (sample_update ''North'' ''worker_11'' 40) 7 two_zone_master)
     = (200, UpdateReceived)
   \<and> map_of (registered_workers
        (snd (traffic_update (sample_update ''North'' ''worker_11'' 40) 7 two_zone_master))) ''North''
     = Some (north_record\<lparr>wr_car_count := 40, wr_last_seen := 7\<rparr>)
   \<and> fst (traffic_update (sample_update ''North'' ''worker_11'' 40) 7
        (snd (register_worker (sample_register ''North'' ''worker_99'') 6 two_zone_master)))
     = (404, NotRegisteredOrIdMismatch)"
  using update_acceptance
      [of "\<lparr>ur_zone = Some ''North'', ur_car_count = Some 40, ur_worker_id = None,
            ur_vehicles = None, ur_traffic_light = None\<rparr>" 7 two_zone_master]
    update_acceptance [of "sample_update ''North'' ''worker_11'' 40" 7 initial_master_state]
    update_acceptance [of "sample_update ''North'' ''worker_99'' 40" 7 two_zone_master]
    update_acceptance [of "sample_update ''North'' ''worker_11'' 40" 7 two_zone_master]
  by (simp add: Let_def sample_update_def sample_register_def two_zone_master_def north_record_def
        initial_master_state_def initial_state_def py_not_def)

text \<open>
  C3 as stated fails: an update for a zone that was never registered is answered 400, not
  404, when it lacks the car count, because the field check comes before the lookup.
\<close>

theorem update_missing_field_counterexample:
  "map_of (registered_workers initial_master_state) ''North'' = None
   \<and> fst (traffic_update
        \<lparr>ur_zone = Some ''North'', ur_car_count = None, ur_worker_id = Some ''worker_11'',
         ur_vehicles = None, ur_traffic_light = None\<rparr> 0 initial_master_state)
       = (400, MissingUpdateFields)"
  by (simp add: traffic_update_def Let_def initial_master_state_def initial_state_def py_not_def)

text \<open>
  C9. An update that is not answered 200 leaves the whole master state as it was: every
  worker record, the grid data of every zone, and the running total.
\<close>

theorem rejected_update_changes_nothing:
  "fst (fst (traffic_update data now s)) \<noteq> 200 \<Longrightarrow> snd (traffic_update data now s) = s"
  by (auto simp: traffic_update_def Let_def split: option.splits if_splits)

theorem rejected_update_changes_nothing_witness:
  "fst (fst (traffic_update (sample_update ''North'' ''worker_99'' 40) 7 two_zone_master)) \<noteq> 200
   \<and> snd (traffic_update (sample_update ''North'' ''worker_99'' 40) 7 two_zone_master) = two_zone_master"
proof -
  have h: "fst (fst (traffic_update (sample_update ''North'' ''worker_99'' 40) 7 two_zone_master)) \<noteq> 200"
    by (simp add: traffic_update_def Let_def sample_update_def two_zone_master_def north_record_def
          py_not_def initial_master_state_def initial_state_def)
  from rejected_update_changes_nothing [OF h] h show ?thesis by (rule conjI [rotated])
qed

subsection \<open>Registration\<close>

text \<open>
  C10. A registration with its three fields present puts a fresh record under the zone:
  count zero, empty snapshot, the new url and id. The sum of the counts over the registry,
  which is the total the stream sends, drops by the count the zone had before, if it was
  registered.
\<close>

theorem register_resets_record:
  assumes "rr_zone data = Some zone" and "zone \<noteq> []"
    and "rr_worker_url data = Some url" and "url \<noteq> []"
    and "rr_worker_id data = Some wid" and "wid \<noteq> []"
  shows "fst (register_worker data now s) = (200, WorkerRegistered wid)
     \<and> map_of (registered_workers (snd (register_worker data now s))) zone =
         Some \<lparr>wr_url = url, wr_last_seen = now, wr_car_count = 0, wr_id = wid,
               wr_current_zone_data = \<lparr>zd_vehicles = [], zd_traffic_light = None\<rparr>\<rparr>
     \<and> sum_car_counts (registered_workers (snd (register_worker data now s))) =
         sum_car_counts (registered_workers s)
           - (case map_of (registered_workers s) zone of
                None \<Rightarrow> 0 | Some old \<Rightarrow> wr_car_count old)"
  using assms
  by (simp add: register_worker_def py_not_def Let_def map_of_dict_set sum_car_counts_def
        sum_dict_set)

theorem register_resets_record_witness:
  "map_of (registered_workers two_zone_master) ''North'' = Some north_record
   \<and> wr_car_count north_record = 25
   \<and> sum_car_counts (registered_workers two_zone_master) = 55
   \<and> map_of (registered_workers
        (snd (register_worker (sample_register ''North'' ''worker_99'') 9 two_zone_master))) ''North''
       = Some \<lparr>wr_url = ''http://localhost:5102'', wr_last_seen = 9, wr_car_count = 0,
               wr_id = ''worker_99'',
               wr_current_zone_data = \<lparr>zd_vehicles = [], zd_traffic_light = None\<rparr>\<rparr>
   \<and> sum_car_counts (registered_workers
        (snd (register_worker (sample_register ''North'' ''worker_99'') 9 two_zone_master))) = 30"
  using register_resets_record [of "sample_register ''North'' ''worker_99''" "''North''"
      "''http://localhost:5102''" "''worker_99''" 9 two_zone_master]
  by (simp add: Let_def sample_register_def two_zone_master_def north_record_def south_record_def
        sum_car_counts_def initial_master_state_def initial_state_def)

subsection \<open>Vehicle motion\<close>

text \<open>
  C5. A vehicle whose coordinate on its axis of motion lies between the lower bound less
  the car size and the upper bound plus the car size is still in that range after
  \<^verbatim>\<open>move\<close>, whatever its heading.
\<close>

theorem move_keeps_wrap_range:
  "within_wrap_range v \<Longrightarrow> within_wrap_range (move v)"
  by (auto simp: within_wrap_range_def axis_bounds_def axis_coordinate_def move_def Let_def
        CAR_SIZE_def CAR_SPEED_def split: prod.splits if_splits)

theorem move_keeps_wrap_range_witness:
  "within_wrap_range (sample_vehicle ''E'' 200 97.5)
   \<and> within_wrap_range (move (sample_vehicle ''E'' 200 97.5))
   \<and> v_x (move (sample_vehicle ''E'' 200 97.5)) = - 5
   \<and> within_wrap_range (sample_vehicle ''W'' 0 97.5)
   \<and> within_wrap_range (move (sample_vehicle ''W'' 0 97.5))
   \<and> within_wrap_range (sample_vehicle ''S'' 97.5 100)
   \<and> within_wrap_range (move (sample_vehicle ''S'' 97.5 100))
   \<and> within_wrap_range (sample_vehicle ''N'' 97.5 (- 5))
   \<and> within_wrap_range (move (sample_vehicle ''N'' 97.5 (- 5)))"
proof -
  have e: "within_wrap_range (sample_vehicle ''E'' 200 97.5)"
    and w: "within_wrap_range (sample_vehicle ''W'' 0 97.5)"
    and s: "within_wrap_range (sample_vehicle ''S'' 97.5 100)"
    and n: "within_wrap_range (sample_vehicle ''N'' 97.5 (- 5))"
    by (simp_all add: within_wrap_range_def axis_bounds_def axis_coordinate_def
          sample_vehicle_def ZONE_SIZE_def CAR_SIZE_def)
  have x: "v_x (move (sample_vehicle ''E'' 200 97.5)) = - 5"
    by (simp add: move_def Let_def sample_vehicle_def ZONE_SIZE_def CAR_SIZE_def CAR_SPEED_def)
  show ?thesis
    using e w s n x move_keeps_wrap_range [OF e] move_keeps_wrap_range [OF w]
      move_keeps_wrap_range [OF s] move_keeps_wrap_range [OF n]
    by blast
qed

subsection \<open>What a request, a fan-out and a cycle leave alone\<close>

lemma worker_simulate_step_simulation_step:
  "simulation_step (snd (worker_simulate_step master_step now draws s)) = master_step"
  by (simp add: worker_simulate_step_def Let_def)

lemma worker_simulate_step_graph_data_history:
  "graph_data_history (snd (worker_simulate_step master_step now draws s))
     = graph_data_history s"
  by (simp add: worker_simulate_step_def Let_def)

lemma worker_simulate_step_registered_workers:
  "registered_workers (snd (worker_simulate_step master_step now draws s))
     = registered_workers s"
  by (simp add: worker_simulate_step_def Let_def)

lemma serve_simulation_step:
  "\<not> is_simulate_step req \<Longrightarrow> simulation_step (serve req s) = simulation_step s"
  by (cases req) (auto simp: register_worker_def traffic_update_def Let_def split: option.splits)

lemma serve_graph_data_history: "graph_data_history (serve req s) = graph_data_history s"
  by (cases req)
     (auto simp: register_worker_def traffic_update_def Let_def
        worker_simulate_step_graph_data_history split: option.splits)


lemma serve_all_preserves:
  assumes "\<And>req s. P req \<Longrightarrow> f (serve req s) = f s"
    and "\<forall>r \<in> set reqs. P r"
  shows "f (serve_all reqs s) = f s"
  using assms(2) unfolding serve_all_def
  by (induction reqs arbitrary: s) (simp_all add: assms(1))

lemma step_workers_snd:
  "snd (step_workers calls ((zone, info) # ws) s)
     = snd (step_workers calls ws (serve_all (co_served (calls zone)) s))"
  by (simp add: post_simulate_step_def split: prod.splits)

lemma step_workers_preserves:
  assumes "\<And>req s. P req \<Longrightarrow> f (serve req s) = f s"
    and "\<forall>z \<in> fst ` set ws. \<forall>r \<in> set (co_served (calls z)). P r"
  shows "f (snd (step_workers calls ws s)) = f s"
  using assms(2)
proof (induction ws arbitrary: s)
  case Nil
  then show ?case by simp
next
  case (Cons p ws)
  obtain zone info where p: "p = (zone, info)"
    by (cases p)
  have here: "\<forall>r \<in> set (co_served (calls zone)). P r"
    using Cons.prems by (simp add: p)
  have rest: "\<forall>z \<in> fst ` set ws. \<forall>r \<in> set (co_served (calls z)). P r"
    using Cons.prems by simp
  show ?case
    unfolding p step_workers_snd
    by (simp add: Cons.IH [OF rest] serve_all_preserves [of P f, OF assms(1) here])
qed

lemma cycle_fan_out_graph_data_history:
  "graph_data_history (snd (cycle_fan_out env s)) = graph_data_history s"
  by (simp add: cycle_fan_out_def Let_def
        step_workers_preserves [of "\<lambda>r. True" graph_data_history,
          OF serve_graph_data_history])

lemma cycle_fan_out_simulation_step:
  assumes "\<forall>z \<in> fst ` set (registered_workers s).
             \<forall>r \<in> set (co_served (c_calls env z)). \<not> is_simulate_step r"
  shows "simulation_step (snd (cycle_fan_out env s)) = simulation_step s + 1"
  using step_workers_preserves [of "\<lambda>r. \<not> is_simulate_step r" simulation_step
      "registered_workers s" "c_calls env" "s\<lparr>simulation_step := simulation_step s + 1\<rparr>",
      OF serve_simulation_step] assms
  by (simp add: cycle_fan_out_def Let_def)


lemma master_cycle_snd:
  "snd (master_cycle env s) = serve_all (c_sleep env) (cycle_record (snd (cycle_fan_out env s)))"
  by (simp add: master_cycle_def Let_def split: prod.splits)

lemma master_cycle_graph_data_history:
  "graph_data_history (snd (master_cycle env s))
     = deque_append graph_data_maxlen (graph_data_history s)
         (simulation_step (snd (cycle_fan_out env s)),
          sum_car_counts (registered_workers (snd (cycle_fan_out env s))))"
  unfolding master_cycle_snd
  by (simp add: serve_all_preserves [of "\<lambda>r. True" graph_data_history,
        OF serve_graph_data_history]
        cycle_record_def Let_def cycle_fan_out_graph_data_history)

text \<open>
  A cycle in which no step request reaches the master leaves the counter one above its
  value before the cycle, whatever the outcome of the calls to the workers; registrations
  and updates, the requests a worker sends to the master, do not change the counter.
\<close>

lemma master_cycle_simulation_step:
  assumes "\<forall>z \<in> fst ` set (registered_workers s).
             \<forall>r \<in> set (co_served (c_calls env z)). \<not> is_simulate_step r"
    and "\<forall>r \<in> set (c_sleep env). \<not> is_simulate_step r"
  shows "simulation_step (snd (master_cycle env s)) = simulation_step s + 1"
proof -
  have "simulation_step (snd (master_cycle env s))
          = simulation_step (cycle_record (snd (cycle_fan_out env s)))"
    unfolding master_cycle_snd
    by (rule serve_all_preserves [of "\<lambda>r. \<not> is_simulate_step r" simulation_step,
          OF serve_simulation_step assms(2)])
  then show ?thesis
    by (simp add: cycle_record_def Let_def cycle_fan_out_simulation_step [OF assms(1)])
qed

subsection \<open>The step counter\<close>

text \<open>
  C2. The code breaks the claim. The handler of \<^verbatim>\<open>/simulate_step\<close>, written for the
  master to command a worker, assigns the posted step number to \<^verbatim>\<open>simulation_step\<close>;
  the master runs the same Flask application, so a step request that reaches the master
  sets the master's counter to the number it carries, outside the coordinator loop. With
  the counter at 5 a request carrying 0 leaves it at 0, and a cycle during which such a
  request is served ends with the counter at 0 and records the sample under step 0.
\<close>

theorem simulate_step_request_sets_counter:
  "simulation_step (serve (SimulateStep master_step now draws) s) = master_step
   \<and> simulation_step (two_zone_master\<lparr>simulation_step := 5\<rparr>) = 5
   \<and> simulation_step
        (serve (SimulateStep 0 12 (sample_draws 0.9 0.9))
           (two_zone_master\<lparr>simulation_step := 5\<rparr>)) = 0
   \<and> simulation_step
        (snd (master_cycle resetting_cycle (two_zone_master\<lparr>simulation_step := 5\<rparr>))) = 0
   \<and> last (graph_data_history
        (snd (master_cycle resetting_cycle (two_zone_master\<lparr>simulation_step := 5\<rparr>))))
       = (0, 55)"
proof -
  have fan: "simulation_step
               (snd (cycle_fan_out resetting_cycle (two_zone_master\<lparr>simulation_step := 5\<rparr>)))
             = 0"
    by (simp add: cycle_fan_out_def resetting_cycle_def two_zone_master_def Let_def
          post_simulate_step_def serve_all_def worker_simulate_step_simulation_step)
  have reg: "registered_workers
               (snd (cycle_fan_out resetting_cycle (two_zone_master\<lparr>simulation_step := 5\<rparr>)))
             = registered_workers two_zone_master"
    by (simp add: cycle_fan_out_def resetting_cycle_def two_zone_master_def Let_def
          post_simulate_step_def serve_all_def worker_simulate_step_registered_workers)
  have total: "sum_car_counts (registered_workers two_zone_master) = 55"
    by (simp add: two_zone_master_def north_record_def south_record_def sum_car_counts_def)
  have sleep: "c_sleep resetting_cycle = []"
    by (simp add: resetting_cycle_def)
  have cycle: "simulation_step
        (snd (master_cycle resetting_cycle (two_zone_master\<lparr>simulation_step := 5\<rparr>))) = 0"
    by (simp add: master_cycle_snd sleep serve_all_def cycle_record_def Let_def fan)
  have sample: "last (graph_data_history
        (snd (master_cycle resetting_cycle (two_zone_master\<lparr>simulation_step := 5\<rparr>))))
       = (0, 55)"
    by (simp add: master_cycle_graph_data_history fan reg total deque_append_def
          graph_data_maxlen_def)
  show ?thesis
    by (simp add: worker_simulate_step_simulation_step cycle sample)
qed

subsection \<open>The total a cycle records\<close>




text \<open>
  The running total and the recorded sum differ once a zone has registered again: the
  registration resets the zone's count and leaves the running total.
\<close>

lemma running_delta_drifts:
  "last (graph_data_history (snd (master_cycle failing_cycle
      (snd (register_worker (sample_register ''North'' ''worker_99'') 9 two_zone_master)))))
     = (3, 30)
   \<and> total_cars_in_sim (snd (master_cycle failing_cycle
      (snd (register_worker (sample_register ''North'' ''worker_99'') 9 two_zone_master))))
     = 55"
  by (simp add: failing_cycle_def two_zone_master_def north_record_def south_record_def
        sample_register_def register_worker_def master_cycle_def cycle_fan_out_def
        cycle_record_def post_simulate_step_def serve_all_def py_not_def sum_car_counts_def
        deque_append_def graph_data_maxlen_def Let_def
        initial_master_state_def initial_state_def)

subsection \<open>The bounded history\<close>

lemma iterate_cycles_graph_data_history:
  "graph_data_history (iterate_cycles envs s)
     = foldl (deque_append graph_data_maxlen) (graph_data_history s) (recorded_samples envs s)"
  by (induction envs arbitrary: s) (simp_all add: master_cycle_graph_data_history)

lemma recorded_samples_length: "length (recorded_samples envs s) = length envs"
  by (induction envs arbitrary: s) simp_all

text \<open>
  The main loop runs consecutive cycles: when it ends, its state is the one that a run
  of cycles over a prefix of the arrivals at the loop head leaves.
\<close>

lemma run_cycles_iterate:
  "run_cycles end_time cs s = Some (out, s') \<Longrightarrow>
     \<exists>k \<le> length cs. s' = iterate_cycles (take k cs) s"
proof (induction cs arbitrary: s out)
  case Nil
  then show ?case by (simp split: if_splits)
next
  case (Cons c cs)
  show ?case
  proof (cases "simulation_active s \<and> before (c_now c) end_time")
    case True
    then obtain out' where "run_cycles end_time cs (snd (master_cycle c s)) = Some (out', s')"
      using Cons.prems by (auto simp: split_beta split: option.splits)
    from Cons.IH [OF this] obtain k where
      "k \<le> length cs" and "s' = iterate_cycles (take k cs) (snd (master_cycle c s))"
      by blast
    then have "Suc k \<le> length (c # cs) \<and> s' = iterate_cycles (take (Suc k) (c # cs)) s"
      by simp
    then show ?thesis by blast
  next
    case False
    then have "s' = iterate_cycles (take 0 (c # cs)) s"
      using Cons.prems by auto
    then show ?thesis by blast
  qed
qed

text \<open>
  C4. A cycle appends its sample at the right end of the history and, when that makes
  more than 100, drops the surplus from the left end. After a run of cycles from a
  history of at most 100 samples, the history is the old history followed by the samples
  of the run, in the order of the cycles, cut down to its last 100 entries. After 150
  cycles from the empty history it is the samples of the run without the first 50.
\<close>

theorem history_bounded_fifo:
  assumes "length (graph_data_history s) \<le> 100"
  shows "graph_data_history (snd (master_cycle env s))
           = drop (Suc (length (graph_data_history s)) - 100)
               (graph_data_history s
                  @ [(simulation_step (snd (cycle_fan_out env s)),
                      sum_car_counts (registered_workers (snd (cycle_fan_out env s))))])
     \<and> graph_data_history (iterate_cycles envs s)
           = drop (length (graph_data_history s @ recorded_samples envs s) - 100)
               (graph_data_history s @ recorded_samples envs s)
     \<and> length (recorded_samples envs s) = length envs
     \<and> length (graph_data_history (iterate_cycles envs s)) \<le> 100
     \<and> (length envs = 150 \<longrightarrow>
          graph_data_history (iterate_cycles envs initial_master_state)
            = drop 50 (recorded_samples envs initial_master_state))"
proof -
  have one: "graph_data_history (snd (master_cycle env s))
           = drop (Suc (length (graph_data_history s)) - 100)
               (graph_data_history s
                  @ [(simulation_step (snd (cycle_fan_out env s)),
                      sum_car_counts (registered_workers (snd (cycle_fan_out env s))))])"
    by (simp add: master_cycle_graph_data_history deque_append_def graph_data_maxlen_def)
  have run: "graph_data_history (iterate_cycles envs s)
           = drop (length (graph_data_history s @ recorded_samples envs s) - 100)
               (graph_data_history s @ recorded_samples envs s)"
    using deque_fold [of "recorded_samples envs s" "graph_data_history s" 100] assms
    by (simp add: iterate_cycles_graph_data_history graph_data_maxlen_def)
  have bound: "length (graph_data_history (iterate_cycles envs s)) \<le> 100"
    unfolding run using assms by simp
  have from_empty: "graph_data_history (iterate_cycles envs initial_master_state)
            = drop (length envs - 100) (recorded_samples envs initial_master_state)"
    using deque_fold [of "recorded_samples envs initial_master_state" "[]" 100]
    by (simp add: iterate_cycles_graph_data_history graph_data_maxlen_def
          initial_master_state_def initial_state_def recorded_samples_length)
  have hundred_fifty: "length envs = 150 \<longrightarrow>
          graph_data_history (iterate_cycles envs initial_master_state)
            = drop 50 (recorded_samples envs initial_master_state)"
    by (simp add: from_empty)
  show ?thesis
    by (rule conjI [OF one conjI [OF run conjI [OF recorded_samples_length
          conjI [OF bound hundred_fifty]]]])
qed

theorem history_bounded_fifo_witness:
  "length (graph_data_history full_history_master) \<le> 100
   \<and> graph_data_history (iterate_cycles [failing_cycle] full_history_master)
       = replicate 99 (7, 55) @ [(106, 55)]
   \<and> length (replicate 150 failing_cycle) = 150
   \<and> graph_data_history (iterate_cycles (replicate 150 failing_cycle) initial_master_state)
       = drop 50 (recorded_samples (replicate 150 failing_cycle) initial_master_state)
   \<and> length (graph_data_history
        (iterate_cycles (replicate 150 failing_cycle) initial_master_state)) = 100"
proof -
  have full: "length (graph_data_history full_history_master) \<le> 100"
    by (simp add: full_history_master_def)
  have samples: "recorded_samples [failing_cycle] full_history_master = [(106, 55)]"
    by (simp add: failing_cycle_def full_history_master_def two_zone_master_def
          north_record_def south_record_def cycle_fan_out_def post_simulate_step_def
          serve_all_def sum_car_counts_def Let_def initial_master_state_def
          initial_state_def)
  have hist: "graph_data_history full_history_master = replicate 100 (7, 55)"
    by (simp add: full_history_master_def)
  have "graph_data_history (iterate_cycles [failing_cycle] full_history_master)
          = drop (length (graph_data_history full_history_master
                            @ recorded_samples [failing_cycle] full_history_master) - 100)
              (graph_data_history full_history_master
                 @ recorded_samples [failing_cycle] full_history_master)"
    using history_bounded_fifo [OF full, where envs = "[failing_cycle]"] by blast
  then have evict: "graph_data_history (iterate_cycles [failing_cycle] full_history_master)
                 = replicate 99 (7, 55) @ [(106, 55)]"
    by (simp only: samples hist) simp
  have empty: "length (graph_data_history initial_master_state) \<le> 100"
    by (simp add: initial_master_state_def initial_state_def)
  have len: "length (replicate 150 failing_cycle) = 150"
    by simp
  have last_hundred:
    "graph_data_history (iterate_cycles (replicate 150 failing_cycle) initial_master_state)
       = drop 50 (recorded_samples (replicate 150 failing_cycle) initial_master_state)"
    using history_bounded_fifo [OF empty, where envs = "replicate 150 failing_cycle"] len
    by blast
  have count: "length (graph_data_history
        (iterate_cycles (replicate 150 failing_cycle) initial_master_state)) = 100"
    by (simp add: last_hundred recorded_samples_length)
  show ?thesis
    by (rule conjI [OF full conjI [OF evict conjI [OF len conjI [OF last_hundred count]]]])
qed

subsection \<open>Spawning within capacity\<close>

lemma list_pop_length: "length (list_pop i xs) \<le> length xs"
  by (simp add: list_pop_def)

lemma randint_index: "0 < n \<Longrightarrow> nat (randint 0 (int n - 1) draw) < n"
  by (simp add: randint_def)

lemma worker_vehicles_after_step:
  "worker_vehicles (snd (worker_simulate_step master_step now draws w)) =
     (let vs = map move (worker_vehicles w);
          vs' = (if d_spawn draws < 0.4 \<and> length (worker_vehicles w) < MAX_CARS_PER_ZONE
                 then vs @ [spawned_vehicle draws (w\<lparr>simulation_step := master_step\<rparr>)]
                 else vs)
      in if d_remove draws < 0.02 \<and> length vs' > 20
         then list_pop (nat (randint 0 (int (length vs') - 1) (d_remove_index draws))) vs'
         else vs')"
  by (auto simp add: worker_simulate_step_def spawned_vehicle_def Let_def)

text \<open>
  C6. A step that starts with at most \<^verbatim>\<open>MAX_CARS_PER_ZONE\<close> vehicles ends with at most
  that many; and when the step ends with more vehicles than it started with, it started
  strictly below the capacity and ends with exactly one more. Unless the spawn draw is
  below 0.4 and the count strictly below the capacity, the vehicles after the step are
  the old ones, moved, less at most one removed: nothing is spawned. When both hold, they
  are the old ones, moved, followed by exactly one new vehicle, again less at most one
  removed.
\<close>

theorem spawn_respects_capacity:
  assumes "length (worker_vehicles w) \<le> MAX_CARS_PER_ZONE"
  shows "length (worker_vehicles (snd (worker_simulate_step master_step now draws w)))
           \<le> MAX_CARS_PER_ZONE
     \<and> (length (worker_vehicles w)
           < length (worker_vehicles (snd (worker_simulate_step master_step now draws w)))
          \<longrightarrow> length (worker_vehicles w) < MAX_CARS_PER_ZONE
            \<and> length (worker_vehicles (snd (worker_simulate_step master_step now draws w)))
                = Suc (length (worker_vehicles w)))
     \<and> (\<not> (d_spawn draws < 0.4 \<and> length (worker_vehicles w) < MAX_CARS_PER_ZONE) \<longrightarrow>
          worker_vehicles (snd (worker_simulate_step master_step now draws w))
            = map move (worker_vehicles w)
          \<or> (\<exists>i < length (worker_vehicles w).
                worker_vehicles (snd (worker_simulate_step master_step now draws w))
                  = list_pop i (map move (worker_vehicles w))))
     \<and> (d_spawn draws < 0.4 \<and> length (worker_vehicles w) < MAX_CARS_PER_ZONE \<longrightarrow>
          worker_vehicles (snd (worker_simulate_step master_step now draws w))
            = map move (worker_vehicles w)
                @ [spawned_vehicle draws (w\<lparr>simulation_step := master_step\<rparr>)]
          \<or> (\<exists>i < Suc (length (worker_vehicles w)).
                worker_vehicles (snd (worker_simulate_step master_step now draws w))
                  = list_pop i
                      (map move (worker_vehicles w)
                         @ [spawned_vehicle draws (w\<lparr>simulation_step := master_step\<rparr>)])))"
proof -
  define vs where "vs = map move (worker_vehicles w)"
  define c where "c = spawned_vehicle draws (w\<lparr>simulation_step := master_step\<rparr>)"
  define spawn where
    "spawn \<longleftrightarrow> d_spawn draws < 0.4 \<and> length (worker_vehicles w) < MAX_CARS_PER_ZONE"
  define vs' where "vs' = (if spawn then vs @ [c] else vs)"
  define after where
    "after = worker_vehicles (snd (worker_simulate_step master_step now draws w))"
  have len_vs: "length vs = length (worker_vehicles w)"
    by (simp add: vs_def)
  have after_eq: "after =
      (if d_remove draws < 0.02 \<and> length vs' > 20
       then list_pop (nat (randint 0 (int (length vs') - 1) (d_remove_index draws))) vs'
       else vs')"
    unfolding after_def vs'_def spawn_def vs_def c_def worker_vehicles_after_step Let_def
    by (rule refl)
  have after: "after = vs' \<or> (\<exists>i < length vs'. after = list_pop i vs')"
  proof (cases "d_remove draws < 0.02 \<and> length vs' > 20")
    case True
    have "after
        = list_pop (nat (randint 0 (int (length vs') - 1) (d_remove_index draws))) vs'"
      by (simp only: after_eq if_P [OF True])
    moreover have "0 < length vs'"
      using True by linarith
    then have "nat (randint 0 (int (length vs') - 1) (d_remove_index draws)) < length vs'"
      by (rule randint_index)
    ultimately show ?thesis by blast
  next
    case False
    have "after = vs'"
      by (simp only: after_eq if_not_P [OF False])
    then show ?thesis by simp
  qed
  have len_after: "length after \<le> length vs'"
    using after list_pop_length [of _ vs'] by auto
  have len_vs': "length vs' = (if spawn then Suc (length (worker_vehicles w))
                               else length (worker_vehicles w))"
    by (simp add: vs'_def len_vs)
  have bound: "length after \<le> MAX_CARS_PER_ZONE"
    using len_after len_vs' assms by (auto simp: spawn_def split: if_splits)
  have growth: "length (worker_vehicles w) < length after \<longrightarrow>
                  length (worker_vehicles w) < MAX_CARS_PER_ZONE
                  \<and> length after = Suc (length (worker_vehicles w))"
    using len_after len_vs' by (auto simp: spawn_def split: if_splits)
  have no_spawn: "\<not> spawn \<longrightarrow>
      after = vs \<or> (\<exists>i < length (worker_vehicles w). after = list_pop i vs)"
    using after by (auto simp: vs'_def len_vs)
  have one_spawn: "spawn \<longrightarrow>
      after = vs @ [c] \<or> (\<exists>i < Suc (length (worker_vehicles w)). after = list_pop i (vs @ [c]))"
    using after by (auto simp: vs'_def len_vs)
  show ?thesis
    using bound growth no_spawn one_spawn
    unfolding after_def vs_def c_def spawn_def
    by (rule conjI [OF _ conjI [OF _ conjI]])
qed

theorem spawn_respects_capacity_witness:
  "length (worker_vehicles (sample_worker 80)) \<le> MAX_CARS_PER_ZONE
   \<and> d_spawn (sample_draws 0.1 0.5) < 0.4
   \<and> length (worker_vehicles
        (snd (worker_simulate_step 3 10 (sample_draws 0.1 0.5) (sample_worker 80))))
       \<le> MAX_CARS_PER_ZONE
   \<and> worker_vehicles
        (snd (worker_simulate_step 3 10 (sample_draws 0.1 0.5) (sample_worker 80)))
       = map move (worker_vehicles (sample_worker 80))
   \<and> length (worker_vehicles (sample_worker 21)) \<le> MAX_CARS_PER_ZONE
   \<and> length (worker_vehicles
        (snd (worker_simulate_step 3 10 (sample_draws 0.1 0.5) (sample_worker 21))))
       \<le> MAX_CARS_PER_ZONE
   \<and> length (worker_vehicles
        (snd (worker_simulate_step 3 10 (sample_draws 0.1 0.5) (sample_worker 21)))) = 22"
proof -
  have at_capacity: "length (worker_vehicles (sample_worker 80)) \<le> MAX_CARS_PER_ZONE"
    and below: "length (worker_vehicles (sample_worker 21)) \<le> MAX_CARS_PER_ZONE"
    and roll: "d_spawn (sample_draws 0.1 0.5) < 0.4"
    by (simp_all add: sample_worker_def sample_draws_def MAX_CARS_PER_ZONE_def)
  have kept: "length (worker_vehicles
        (snd (worker_simulate_step 3 10 (sample_draws 0.1 0.5) (sample_worker 80))))
       \<le> MAX_CARS_PER_ZONE"
    by (rule spawn_respects_capacity [OF at_capacity, THEN conjunct1])
  have same: "worker_vehicles
        (snd (worker_simulate_step 3 10 (sample_draws 0.1 0.5) (sample_worker 80)))
       = map move (worker_vehicles (sample_worker 80))"
    by (simp add: worker_vehicles_after_step Let_def sample_draws_def sample_worker_def
          MAX_CARS_PER_ZONE_def)
  have kept': "length (worker_vehicles
        (snd (worker_simulate_step 3 10 (sample_draws 0.1 0.5) (sample_worker 21))))
       \<le> MAX_CARS_PER_ZONE"
    by (rule spawn_respects_capacity [OF below, THEN conjunct1])
  have one_more: "length (worker_vehicles
        (snd (worker_simulate_step 3 10 (sample_draws 0.1 0.5) (sample_worker 21)))) = 22"
    by (simp add: worker_vehicles_after_step Let_def sample_draws_def sample_worker_def
          MAX_CARS_PER_ZONE_def)
  show ?thesis
    by (rule conjI [OF at_capacity conjI [OF roll conjI [OF kept conjI [OF same
          conjI [OF below conjI [OF kept' one_more]]]]]])
qed

subsection \<open>Startup without workers\<close>

lemma wait_for_workers_preserves:
  assumes "\<And>req s. P req \<Longrightarrow> f (serve req s) = f s"
    and "\<forall>r \<in> set rs. \<forall>q \<in> set (wt_served r). P q"
  shows "wait_for_workers t0 rs s = Some (out, s1) \<Longrightarrow> f s1 = f s"
  using assms(2)
proof (induction rs arbitrary: s)
  case Nil
  then show ?case by (simp split: if_splits)
next
  case (Cons r rs)
  have here: "\<forall>q \<in> set (wt_served r). P q"
    and rest: "\<forall>r \<in> set rs. \<forall>q \<in> set (wt_served r). P q"
    using Cons.prems(2) by simp_all
  show ?case
  proof (cases "length (registered_workers s) < length expected_zones
                  \<and> \<not> wt_now r - t0 > initial_wait_timeout")
    case True
    then have "wait_for_workers t0 rs (serve_all (wt_served r) s) = Some (out, s1)"
      using Cons.prems(1) by simp
    then have "f s1 = f (serve_all (wt_served r) s)"
      using rest by (rule Cons.IH)
    then show ?thesis
      by (simp add: serve_all_preserves [of P f, OF assms(1) here])
  next
    case False
    then show ?thesis
      using Cons.prems(1) by (auto split: if_splits)
  qed
qed

lemma wait_for_workers_timeout:
  "wait_for_workers t0 rs s = Some (out, s1) \<Longrightarrow>
     length (registered_workers s1) < length expected_zones \<Longrightarrow>
     out = [TimeoutWaiting (length (registered_workers s1)) (length expected_zones)]"
  by (induction rs arbitrary: s) (auto split: if_splits)

text \<open>
  The waiting loop ends once a round reads the clock past the timeout: with such a round
  among those given, the loop returns.
\<close>

lemma wait_for_workers_returns:
  "\<exists>r \<in> set rs. wt_now r - t0 > initial_wait_timeout \<Longrightarrow>
     \<exists>res. wait_for_workers t0 rs s = Some res"
  by (induction rs arbitrary: s) auto

text \<open>
  A worker process that fails to register ten times does exit with status 1.
\<close>

lemma worker_process_exits:
  "worker_process
     [RegisterConnectionError, RegisterConnectionError, RegisterConnectionError,
      RegisterConnectionError, RegisterConnectionError, RegisterConnectionError,
      RegisterConnectionError, RegisterConnectionError, RegisterConnectionError,
      RegisterConnectionError] = Some (Exited 1)"
  by (simp add: worker_process_def worker_startup_register_def main_thread_status_def)

text \<open>
  C8, as amended. When the waiting loop ends with an empty registry, it ended by its
  timeout; the coordinator prints that no workers are registered, clears
  \<^verbatim>\<open>simulation_active\<close> and returns without running a cycle: the globals are those the
  wait ended with but for that flag, the history is what it was before the wait, and so
  is the step counter when no step request reached the master during the wait. The
  function returns on its daemon thread, and the master process keeps running.
\<close>

theorem no_workers_zero_cycles:
  assumes "wait_for_workers (le_start_wait_time env) (le_wait env) s = Some (out_wait, s1)"
    and "registered_workers s1 = []"
  shows "master_simulation_loop duration env s
           = Some (Return,
                   [StartingLoop, WaitingForWorkers, TimeoutWaiting 0 4, NoWorkersRegistered],
                   s1\<lparr>simulation_active := False\<rparr>)
     \<and> master_process duration env s
           = Some (Running,
                   [StartingLoop, WaitingForWorkers, TimeoutWaiting 0 4, NoWorkersRegistered],
                   s1\<lparr>simulation_active := False\<rparr>)
     \<and> graph_data_history s1 = graph_data_history s
     \<and> ((\<forall>r \<in> set (le_wait env). \<forall>q \<in> set (wt_served r). \<not> is_simulate_step q)
          \<longrightarrow> simulation_step s1 = simulation_step s)"
proof -
  have out: "out_wait = [TimeoutWaiting 0 4]"
    using wait_for_workers_timeout [OF assms(1)] assms(2)
    by (simp add: expected_zones_def)
  have loop: "master_simulation_loop duration env s
           = Some (Return,
                   [StartingLoop, WaitingForWorkers, TimeoutWaiting 0 4, NoWorkersRegistered],
                   s1\<lparr>simulation_active := False\<rparr>)"
    using assms out by (simp add: master_simulation_loop_def Let_def)
  have process: "master_process duration env s
           = Some (Running,
                   [StartingLoop, WaitingForWorkers, TimeoutWaiting 0 4, NoWorkersRegistered],
                   s1\<lparr>simulation_active := False\<rparr>)"
    by (simp add: master_process_def loop main_thread_status_def)
  have history: "graph_data_history s1 = graph_data_history s"
    by (rule wait_for_workers_preserves [of "\<lambda>r. True" graph_data_history,
          OF serve_graph_data_history _ assms(1)]) simp
  have step: "(\<forall>r \<in> set (le_wait env). \<forall>q \<in> set (wt_served r). \<not> is_simulate_step q)
          \<longrightarrow> simulation_step s1 = simulation_step s"
    using wait_for_workers_preserves [of "\<lambda>r. \<not> is_simulate_step r" simulation_step,
        OF serve_simulation_step _ assms(1)]
    by blast
  show ?thesis
    by (rule conjI [OF loop conjI [OF process conjI [OF history step]]])
qed

theorem no_workers_zero_cycles_witness:
  "wait_for_workers (le_start_wait_time no_worker_env) (le_wait no_worker_env)
       initial_master_state
     = Some ([TimeoutWaiting 0 4], initial_master_state)
   \<and> registered_workers initial_master_state = []
   \<and> master_simulation_loop (Some 60) no_worker_env initial_master_state
     = Some (Return,
             [StartingLoop, WaitingForWorkers, TimeoutWaiting 0 4, NoWorkersRegistered],
             initial_master_state\<lparr>simulation_active := False\<rparr>)
   \<and> master_process (Some 60) no_worker_env initial_master_state
     = Some (Running,
             [StartingLoop, WaitingForWorkers, TimeoutWaiting 0 4, NoWorkersRegistered],
             initial_master_state\<lparr>simulation_active := False\<rparr>)
   \<and> simulation_step initial_master_state = 0
   \<and> graph_data_history initial_master_state = []"
proof -
  have w: "wait_for_workers (le_start_wait_time no_worker_env) (le_wait no_worker_env)
             initial_master_state
           = Some ([TimeoutWaiting 0 4], initial_master_state)"
    by (simp add: no_worker_env_def initial_master_state_def initial_state_def
          expected_zones_def initial_wait_timeout_def serve_all_def)
  have r: "registered_workers initial_master_state = []"
    by (simp add: initial_master_state_def initial_state_def)
  show ?thesis
    using w r no_workers_zero_cycles [OF w r, of "Some 60"]
    by (simp add: initial_master_state_def initial_state_def)
qed

text \<open>
  C8 as stated fails: with no worker registered within the timeout the loop returns
  normally and the master process keeps running, where the claim has the process exit
  with a non-zero status.
\<close>

theorem no_workers_returns_counterexample:
  "map_option fst (master_simulation_loop (Some 60) no_worker_env initial_master_state)
     = Some Return
   \<and> map_option fst (master_process (Some 60) no_worker_env initial_master_state)
     = Some Running
   \<and> map_option fst (master_process (Some 60) no_worker_env initial_master_state)
     \<noteq> Some (Exited 1)"
  by (simp add: master_process_def master_simulation_loop_def no_worker_env_def
        initial_master_state_def initial_state_def expected_zones_def
        initial_wait_timeout_def serve_all_def main_thread_status_def Let_def)

subsection \<open>The stream\<close>

lemma stream_round_emits:
  "fst (stream_round l s) \<noteq> None \<longleftrightarrow> l < simulation_step s"
  by (auto simp: stream_round_def Let_def)

lemma stream_round_type:
  "fst (stream_round l s) = Some p \<Longrightarrow>
     p_type p = (if l = - 1 then ''initial_data'' else ''update'')"
  by (auto simp: stream_round_def Let_def split: if_splits)

lemma stream_round_full:
  "fst (stream_round l s) = Some p \<Longrightarrow>
     p_step p = simulation_step s
     \<and> p_status p = (if simulation_active s then ''Active'' else ''Inactive'')
     \<and> p_total_cars p = sum_car_counts (registered_workers s)
     \<and> p_num_workers p = length (registered_workers s)
     \<and> p_history p = graph_data_history s
     \<and> p_zone_data p = full_simulation_grid_data s
     \<and> p_registered_workers p
         = map (\<lambda>(zone, data).
                  (zone, \<lparr>wd_url = wr_url data, wd_last_seen = wr_last_seen data,
                          wd_car_count = wr_car_count data, wd_id = wr_id data\<rparr>))
             (registered_workers s)"
  by (auto simp: stream_round_def Let_def split: if_splits)

lemma stream_round_snd:
  "snd (stream_round l s) = (case fst (stream_round l s) of None \<Rightarrow> l | Some p \<Rightarrow> p_step p)"
  by (simp add: stream_round_def Let_def)

lemma stream_round_nonneg: "0 \<le> l \<Longrightarrow> 0 \<le> snd (stream_round l s)"
  by (simp add: stream_round_def Let_def)

lemma generate_data_from_Cons:
  "generate_data_from l (s # obs)
     = fst (stream_round l s) # generate_data_from (snd (stream_round l s)) obs"
  by (simp add: split_beta)

lemma generate_data_from_length: "length (generate_data_from l obs) = length obs"
  by (induction obs arbitrary: l) (simp_all add: split_beta)

lemma generate_data_from_nth:
  "i < length obs \<Longrightarrow>
     generate_data_from l obs ! i
       = fst (stream_round (last_step_sent_after l (take i obs)) (obs ! i))"
proof (induction obs arbitrary: l i)
  case Nil
  then show ?case by simp
next
  case (Cons s obs)
  show ?case
  proof (cases i)
    case 0
    then show ?thesis
      by (simp add: last_step_sent_after_def split_beta)
  next
    case (Suc j)
    then have "j < length obs"
      using Cons.prems by simp
    from Cons.IH [OF this, of "snd (stream_round l s)"] show ?thesis
      by (simp add: Suc last_step_sent_after_def split_beta)
  qed
qed

lemma generate_data_from_take:
  "take i (generate_data_from l obs) = generate_data_from l (take i obs)"
proof (induction obs arbitrary: l i)
  case Nil
  then show ?case by simp
next
  case (Cons s obs)
  then show ?case
    by (cases i) (simp_all add: split_beta)
qed

lemma latest_yield_cursor:
  "last_step_sent_after l obs
     = (case latest_yield (generate_data_from l obs) of None \<Rightarrow> l | Some q \<Rightarrow> p_step q)"
proof (induction obs arbitrary: l)
  case Nil
  then show ?case by (simp add: last_step_sent_after_def)
next
  case (Cons s obs)
  have unfold: "last_step_sent_after l (s # obs)
                  = last_step_sent_after (snd (stream_round l s)) obs"
    by (simp add: last_step_sent_after_def)
  show ?case
    unfolding unfold generate_data_from_Cons Cons.IH
    by (simp add: stream_round_snd split: option.splits)
qed

lemma stream_round_lower: "- 1 \<le> l \<Longrightarrow> - 1 \<le> snd (stream_round l s)"
  by (simp add: stream_round_def Let_def)

lemma latest_yield_nonneg:
  "- 1 \<le> l \<Longrightarrow> latest_yield (generate_data_from l obs) = Some q \<Longrightarrow> 0 \<le> p_step q"
proof (induction obs arbitrary: l)
  case Nil
  then show ?case by simp
next
  case (Cons s obs)
  show ?case
  proof (cases "latest_yield (generate_data_from (snd (stream_round l s)) obs)")
    case None
    then have here: "fst (stream_round l s) = Some q"
      using Cons.prems(2) by (simp add: split_beta)
    then have "l < simulation_step s"
      using stream_round_emits [of l s] by simp
    moreover have "p_step q = simulation_step s"
      using stream_round_full [OF here] by simp
    ultimately show ?thesis
      using Cons.prems(1) by simp
  next
    case (Some q')
    then have "q' = q"
      using Cons.prems(2) by (simp add: split_beta)
    with Some show ?thesis
      using Cons.IH [OF stream_round_lower [OF Cons.prems(1)]] by simp
  qed
qed

text \<open>
  C7. On every connection and in every round, an element is yielded exactly when the
  step counter the round observes is above the step of the element the connection
  yielded last, or above -1 when it has yielded none. The first element a connection
  yields is tagged \<^verbatim>\<open>initial_data\<close>; every later one is tagged \<^verbatim>\<open>update\<close> and carries a
  step above that of the element before it. Every element carries the observed state in
  full: step, status, total, number of workers, the whole history, the grid data of all
  zones and the details of every registered worker. When the first round observes a step
  counter that is not negative, it is that round which yields the first element, so that
  every later round has an element yielded before it.
\<close>

theorem stream_initial_then_on_advance:
  assumes "i < length obs"
  shows "(generate_data obs ! i \<noteq> None \<longleftrightarrow>
            (case latest_yield (take i (generate_data obs)) of
               None \<Rightarrow> - 1 | Some q \<Rightarrow> p_step q) < simulation_step (obs ! i))
     \<and> (\<forall>p. generate_data obs ! i = Some p \<longrightarrow>
          (latest_yield (take i (generate_data obs)) = None \<longrightarrow> p_type p = ''initial_data'')
          \<and> (\<forall>q. latest_yield (take i (generate_data obs)) = Some q \<longrightarrow>
                p_type p = ''update'' \<and> p_step q < p_step p)
          \<and> p_step p = simulation_step (obs ! i)
          \<and> p_status p = (if simulation_active (obs ! i) then ''Active'' else ''Inactive'')
          \<and> p_total_cars p = sum_car_counts (registered_workers (obs ! i))
          \<and> p_num_workers p = length (registered_workers (obs ! i))
          \<and> p_history p = graph_data_history (obs ! i)
          \<and> p_zone_data p = full_simulation_grid_data (obs ! i)
          \<and> p_registered_workers p
              = map (\<lambda>(zone, data).
                       (zone, \<lparr>wd_url = wr_url data, wd_last_seen = wr_last_seen data,
                               wd_car_count = wr_car_count data, wd_id = wr_id data\<rparr>))
                  (registered_workers (obs ! i)))
     \<and> (0 \<le> simulation_step (obs ! 0) \<longrightarrow>
          (\<exists>p. generate_data obs ! 0 = Some p \<and> p_type p = ''initial_data'')
          \<and> (0 < i \<longrightarrow> latest_yield (take i (generate_data obs)) \<noteq> None))"
proof -
  define c where "c = last_step_sent_after (- 1) (take i obs)"
  define prev where "prev = latest_yield (take i (generate_data obs))"
  have nth: "generate_data obs ! i = fst (stream_round c (obs ! i))"
    unfolding generate_data_def c_def by (rule generate_data_from_nth [OF assms])
  have prev: "prev = latest_yield (generate_data_from (- 1) (take i obs))"
    by (simp add: prev_def generate_data_def generate_data_from_take)
  have c: "c = (case prev of None \<Rightarrow> - 1 | Some q \<Rightarrow> p_step q)"
    unfolding c_def prev by (rule latest_yield_cursor)
  have c_Some: "0 \<le> p_step q" if "prev = Some q" for q
    using latest_yield_nonneg [of "- 1" "take i obs" q] that prev by simp
  have emits: "generate_data obs ! i \<noteq> None \<longleftrightarrow>
                 (case prev of None \<Rightarrow> - 1 | Some q \<Rightarrow> p_step q) < simulation_step (obs ! i)"
    unfolding nth stream_round_emits c ..
  have element: "(prev = None \<longrightarrow> p_type p = ''initial_data'')
          \<and> (\<forall>q. prev = Some q \<longrightarrow> p_type p = ''update'' \<and> p_step q < p_step p)
          \<and> p_step p = simulation_step (obs ! i)
          \<and> p_status p = (if simulation_active (obs ! i) then ''Active'' else ''Inactive'')
          \<and> p_total_cars p = sum_car_counts (registered_workers (obs ! i))
          \<and> p_num_workers p = length (registered_workers (obs ! i))
          \<and> p_history p = graph_data_history (obs ! i)
          \<and> p_zone_data p = full_simulation_grid_data (obs ! i)
          \<and> p_registered_workers p
              = map (\<lambda>(zone, data).
                       (zone, \<lparr>wd_url = wr_url data, wd_last_seen = wr_last_seen data,
                               wd_car_count = wr_car_count data, wd_id = wr_id data\<rparr>))
                  (registered_workers (obs ! i))"
    if p: "generate_data obs ! i = Some p" for p
  proof -
    have round: "fst (stream_round c (obs ! i)) = Some p"
      using p by (simp add: nth)
    note full = stream_round_full [OF round]
    have step: "p_step p = simulation_step (obs ! i)"
      using full by simp
    have above: "c < simulation_step (obs ! i)"
      using stream_round_emits [of c "obs ! i"] round by simp
    have first: "prev = None \<longrightarrow> p_type p = ''initial_data''"
      using stream_round_type [OF round] c by simp
    have later: "\<forall>q. prev = Some q \<longrightarrow> p_type p = ''update'' \<and> p_step q < p_step p"
    proof (intro allI impI)
      fix q
      assume q: "prev = Some q"
      then have "c = p_step q" and "c \<noteq> - 1"
        using c c_Some [OF q] by simp_all
      then show "p_type p = ''update'' \<and> p_step q < p_step p"
        using stream_round_type [OF round] above step by simp
    qed
    show ?thesis
      using first later full by blast
  qed
  have started: "(\<exists>p. generate_data obs ! 0 = Some p \<and> p_type p = ''initial_data'')
          \<and> (0 < i \<longrightarrow> prev \<noteq> None)"
    if nonneg: "0 \<le> simulation_step (obs ! 0)"
  proof -
    have "obs \<noteq> []"
      using assms by auto
    then obtain s0 tail where obs: "obs = s0 # tail"
      by (cases obs) auto
    have s0: "0 \<le> simulation_step s0"
      using nonneg by (simp add: obs)
    obtain p0 where p0: "fst (stream_round (- 1) s0) = Some p0"
      using stream_round_emits [of "- 1" s0] s0 by auto
    have zero: "generate_data obs ! 0 = Some p0"
      by (simp add: generate_data_def obs split_beta p0)
    have tag: "p_type p0 = ''initial_data''"
      using stream_round_type [OF p0] by simp
    have "prev \<noteq> None" if pos: "0 < i"
    proof -
      obtain j where j: "i = Suc j"
        using pos by (cases i) auto
      have "take i (generate_data obs)
              = Some p0 # take j (generate_data_from (snd (stream_round (- 1) s0)) tail)"
        by (simp add: generate_data_def obs j split_beta p0)
      then show ?thesis
        by (simp add: prev_def split: option.splits)
    qed
    then show ?thesis
      using zero tag by blast
  qed
  show ?thesis
    using emits element started unfolding prev_def by blast
qed

theorem stream_initial_then_on_advance_witness:
  "2 < length sample_observations
   \<and> generate_data sample_observations ! 2 = None
   \<and> map_option p_step (latest_yield (take 2 (generate_data sample_observations))) = Some 2
   \<and> simulation_step (sample_observations ! 2) = 2
   \<and> map (map_option p_type) (generate_data sample_observations)
       = [Some ''initial_data'', Some ''update'', None, Some ''update'']
   \<and> map (map_option p_step) (generate_data sample_observations)
       = [Some 0, Some 2, None, Some 3]
   \<and> map_option p_history (generate_data sample_observations ! 3) = Some [(1, 50), (2, 55)]
   \<and> map_option p_total_cars (generate_data sample_observations ! 3) = Some 55
   \<and> map simulation_step late_start_observations = [- 3, 2, 3]
   \<and> map (map_option p_type) (generate_data late_start_observations)
       = [None, Some ''initial_data'', Some ''update'']"
proof -
  have len2: "2 < length sample_observations"
    by (simp add: sample_observations_def)
  have rounds: "map_option p_step (latest_yield (take 2 (generate_data sample_observations)))
         = Some 2
     \<and> simulation_step (sample_observations ! 2) = 2
     \<and> map (map_option p_type) (generate_data sample_observations)
         = [Some ''initial_data'', Some ''update'', None, Some ''update'']
     \<and> map (map_option p_step) (generate_data sample_observations)
         = [Some 0, Some 2, None, Some 3]
     \<and> map_option p_history (generate_data sample_observations ! 3)
         = Some [(1, 50), (2, 55)]
     \<and> map_option p_total_cars (generate_data sample_observations ! 3) = Some 55"
    by (simp add: sample_observations_def generate_data_def stream_round_def
          initial_master_state_def initial_state_def two_zone_master_def north_record_def
          south_record_def sum_car_counts_def Let_def)
  have late: "map simulation_step late_start_observations = [- 3, 2, 3]
     \<and> map (map_option p_type) (generate_data late_start_observations)
         = [None, Some ''initial_data'', Some ''update'']"
    by (simp add: late_start_observations_def generate_data_def stream_round_def
          initial_master_state_def initial_state_def two_zone_master_def north_record_def
          south_record_def sum_car_counts_def Let_def)
  have skipped: "generate_data sample_observations ! 2 = None"
    using stream_initial_then_on_advance [OF len2] rounds by auto
  show ?thesis
    using len2 skipped rounds late by blast
qed

end
